theory Spec2Isabelle
  imports Main "HOL-Library.Sublist"
begin

section \<open>The license header injector of scripts/add\_license\_header.py\<close>

text \<open>
  The script prepends a fixed Apache 2.0 notice, rendered as line comments, to every file
  named on its command line. The model below follows the script on a POSIX system:
  path components are separated by \<open>/\<close> and \<open>os.linesep\<close> is a single line feed.

  A Python \<open>str\<close> is modelled by its UTF-8 bytes (\<open>string\<close>, a list of 8-bit
  characters). This is exact for what the script does with text: it splits at CR and LF,
  searches an ASCII substring, and trims whitespace from ASCII header lines, and in valid
  UTF-8 every byte below 128 is a code point of its own and never part of a longer sequence.
\<close>

abbreviation LF :: char where "LF \<equiv> CHR 0x0A"
abbreviation CR :: char where "CR \<equiv> CHR 0x0D"

subsection \<open>The two constant tables\<close>

text \<open>\<open>LICENSE_MAP\<close>, in source order; \<open>LICENSE_MAP.get(ext)\<close> is \<open>map_of LICENSE_MAP ext\<close>.\<close>

definition LICENSE_MAP :: "(string \<times> string) list" where
  "LICENSE_MAP =
     [(''.sh'', ''#''),
      (''.rs'', ''//''),
      (''.py'', ''#''),
      (''.go'', ''//''),
      (''.js'', ''//''),
      (''.jsx'', ''//''),
      (''.ts'', ''//''),
      (''.tsx'', ''//'')]"

definition LICENSE_LINES :: "string list" where
  \<open>LICENSE_LINES =
     [''Copyright 2025 chenjjiaa'',
      '''',
      ''Licensed under the Apache License, Version 2.0 (the "License");'',
      ''you may not use this file except in compliance with the License.'',
      ''You may obtain a copy of the License at'',
      '''',
      ''    http://www.apache.org/licenses/LICENSE-2.0'',
      '''',
      ''Unless required by applicable law or agreed to in writing, software'',
      ''distributed under the License is distributed on an "AS IS" BASIS,'',
      ''WITHOUT WARRANTIES OR CONDITIONS OF ANY KIND, either express or implied.'',
      ''See the License for the specific language governing permissions and'',
      ''limitations under the License.'']\<close>

subsection \<open>Library functions the script calls\<close>

subsubsection \<open>\<open>pathlib.Path(file_path).suffix\<close>\<close>

text \<open>\<open>str.split(sep)\<close> for a one-character separator: never the empty list.\<close>

fun split_sep :: "char \<Rightarrow> string \<Rightarrow> string list" where
  "split_sep sep [] = [[]]"
| "split_sep sep (c # cs) =
     (if c = sep then [] # split_sep sep cs
      else (case split_sep sep cs of
              [] \<Rightarrow> [[c]]
            | l # ls \<Rightarrow> (c # l) # ls))"

text \<open>
  \<open>Path.name\<close>: the path is split at \<open>/\<close>, empty components and \<open>.\<close> components are
  dropped, and the name is the last component left, or the empty string when none is.
\<close>

definition path_name :: "string \<Rightarrow> string" where
  "path_name file_path =
     (let parts = filter (\<lambda>x. x \<noteq> [] \<and> x \<noteq> ''.'') (split_sep (CHR ''/'') file_path)
      in if parts = [] then [] else last parts)"

text \<open>\<open>str.rfind(c)\<close>: the index of the last occurrence, or \<open>-1\<close>.\<close>

fun rfind :: "char \<Rightarrow> string \<Rightarrow> int" where
  "rfind c [] = - 1"
| "rfind c (x # xs) =
     (let r = rfind c xs
      in if 0 \<le> r then r + 1 else if x = c then 0 else - 1)"

text \<open>
  \<open>Path.suffix\<close>, as CPython 3.11 defines it:
  \<^verbatim>\<open>
  name = self.name
  i = name.rfind('.')
  if 0 < i < len(name) - 1:
      return name[i:]
  else:
      return ''
  \<close>
\<close>

definition path_suffix :: "string \<Rightarrow> string" where
  "path_suffix file_path =
     (let name = path_name file_path;
          i = rfind (CHR ''.'') name
      in if 0 < i \<and> i < int (length name) - 1 then drop (nat i) name else [])"

subsubsection \<open>Text files: decoding, universal newlines, \<open>readlines\<close>\<close>

text \<open>
  Strict UTF-8 as Python decodes it (no overlong forms, no surrogates, nothing above
  U+10FFFF), as an automaton over the bytes. \<open>Start\<close> is the state between code points;
  \<open>Cont1\<close>, \<open>Cont2\<close> and \<open>Cont3\<close> expect that many continuation bytes
  \<open>0x80..0xBF\<close>; the four remaining states follow the lead bytes \<open>0xE0\<close>, \<open>0xED\<close>,
  \<open>0xF0\<close> and \<open>0xF4\<close>, whose second byte has a narrower range.
\<close>

datatype ustate = Start | Cont1 | Cont2 | Cont3 | AfterE0 | AfterED | AfterF0 | AfterF4

definition in_range :: "nat \<Rightarrow> nat \<Rightarrow> nat \<Rightarrow> ustate \<Rightarrow> ustate option" where
  "in_range lo hi b st = (if lo \<le> b \<and> b \<le> hi then Some st else None)"

definition utf8_step :: "ustate \<Rightarrow> char \<Rightarrow> ustate option" where
  "utf8_step st c =
     (let b = (of_char c :: nat) in
      case st of
        Start \<Rightarrow>
          if b < 0x80 then Some Start
          else if 0xC2 \<le> b \<and> b \<le> 0xDF then Some Cont1
          else if b = 0xE0 then Some AfterE0
          else if b = 0xED then Some AfterED
          else if 0xE1 \<le> b \<and> b \<le> 0xEF then Some Cont2
          else if b = 0xF0 then Some AfterF0
          else if 0xF1 \<le> b \<and> b \<le> 0xF3 then Some Cont3
          else if b = 0xF4 then Some AfterF4
          else None
      | Cont1 \<Rightarrow> in_range 0x80 0xBF b Start
      | Cont2 \<Rightarrow> in_range 0x80 0xBF b Cont1
      | Cont3 \<Rightarrow> in_range 0x80 0xBF b Cont2
      | AfterE0 \<Rightarrow> in_range 0xA0 0xBF b Cont1
      | AfterED \<Rightarrow> in_range 0x80 0x9F b Cont1
      | AfterF0 \<Rightarrow> in_range 0x90 0xBF b Cont2
      | AfterF4 \<Rightarrow> in_range 0x80 0x8F b Cont2)"

fun utf8_run :: "ustate \<Rightarrow> string \<Rightarrow> bool" where
  "utf8_run st [] = (st = Start)"
| "utf8_run st (c # cs) =
     (case utf8_step st c of None \<Rightarrow> False | Some st' \<Rightarrow> utf8_run st' cs)"

definition utf8_valid :: "string \<Rightarrow> bool" where
  "utf8_valid bs = utf8_run Start bs"

text \<open>
  \<open>open(file_path, 'r')\<close> leaves \<open>newline\<close> at its default: on input, \<open>\r\n\<close> and a
  lone \<open>\r\<close> are both translated to \<open>\n\<close> before the text reaches the caller.
\<close>

fun universal_newlines :: "string \<Rightarrow> string" where
  "universal_newlines [] = []"
| "universal_newlines [c] = [if c = CR then LF else c]"
| "universal_newlines (c # d # cs) =
     (if c = CR \<and> d = LF then LF # universal_newlines cs
      else if c = CR then LF # universal_newlines (d # cs)
      else c # universal_newlines (d # cs))"

text \<open>
  \<open>f.readlines()\<close> on the translated text: the text is cut after every \<open>\n\<close> and
  nowhere else, each line keeps its terminating \<open>\n\<close>, and only the last line may lack
  one.
\<close>

fun readlines :: "string \<Rightarrow> string list" where
  "readlines [] = []"
| "readlines (c # cs) =
     (if c = LF then [LF] # readlines cs
      else (case readlines cs of
              [] \<Rightarrow> [[c]]
            | l # ls \<Rightarrow> (c # l) # ls))"

text \<open>
  On output with the default \<open>newline\<close>, every \<open>\n\<close> written becomes \<open>os.linesep\<close>.
\<close>

definition os_linesep :: string where
  "os_linesep = [LF]"

definition write_newlines :: "string \<Rightarrow> string" where
  "write_newlines s = concat (map (\<lambda>c. if c = LF then os_linesep else [c]) s)"

subsubsection \<open>\<open>sub in line\<close> and \<open>str.rstrip()\<close>\<close>

fun str_in :: "string \<Rightarrow> string \<Rightarrow> bool" where
  "str_in sub [] = (sub = [])"
| "str_in sub (c # cs) = (prefix sub (c # cs) \<or> str_in sub cs)"

text \<open>
  The characters below 128 for which \<open>str.isspace\<close> holds. \<open>rstrip\<close> is only ever
  applied to a comment marker followed by a notice line, which are ASCII.
\<close>

definition py_isspace :: "char \<Rightarrow> bool" where
  "py_isspace c =
     (let n = (of_char c :: nat) in (9 \<le> n \<and> n \<le> 13) \<or> (28 \<le> n \<and> n \<le> 32))"

definition rstrip :: "string \<Rightarrow> string" where
  "rstrip s = rev (dropWhile py_isspace (rev s))"

subsection \<open>The file system\<close>

text \<open>
  A file system maps a path, as the string handed to \<open>open\<close>, to a file: its bytes and
  whether this process may open it for reading and for writing. Two different strings are
  two different files. Every failure of \<open>open\<close> or of decoding is one of three errors;
  a write that fails after the file has been truncated is outside the model.
\<close>

record file_entry =
  content :: string
  readable :: bool
  writable :: bool

type_synonym fs = "string \<rightharpoonup> file_entry"

datatype error = FileNotFoundError | PermissionError | UnicodeDecodeError

text \<open>\<open>with open(file_path, 'r', encoding='utf-8') as f: lines = f.readlines()\<close>\<close>

definition open_readlines :: "fs \<Rightarrow> string \<Rightarrow> error + string list" where
  "open_readlines files file_path =
     (case files file_path of
        None \<Rightarrow> Inl FileNotFoundError
      | Some f \<Rightarrow>
          if \<not> readable f then Inl PermissionError
          else if \<not> utf8_valid (content f) then Inl UnicodeDecodeError
          else Inr (readlines (universal_newlines (content f))))"

text \<open>
  \<open>with open(file_path, 'w', encoding='utf-8') as f: f.writelines(ls)\<close>. Opening for
  writing truncates an existing file and creates a missing one.
\<close>

definition open_writelines :: "fs \<Rightarrow> string \<Rightarrow> string list \<Rightarrow> error + fs" where
  "open_writelines files file_path ls =
     (case files file_path of
        None \<Rightarrow>
          Inr (files(file_path \<mapsto>
                 \<lparr>content = write_newlines (concat ls), readable = True, writable = True\<rparr>))
      | Some f \<Rightarrow>
          if \<not> writable f then Inl PermissionError
          else Inr (files(file_path \<mapsto> f\<lparr>content := write_newlines (concat ls)\<rparr>)))"

subsection \<open>\<open>add_header\<close> and the entry point\<close>

text \<open>
  One element of the list comprehension
  \<^verbatim>\<open>[f"{comment} {line}".rstrip() + '\n' if line else f"{comment}\n" for line in LICENSE_LINES]\<close>
\<close>

definition comment_line :: "string \<Rightarrow> string \<Rightarrow> string" where
  "comment_line comment line =
     (if line \<noteq> [] then rstrip (comment @ '' '' @ line) @ [LF] else comment @ [LF])"

definition commented_header :: "string \<Rightarrow> string list" where
  "commented_header comment = map (comment_line comment) LICENSE_LINES"

definition license_marker :: string where
  "license_marker = ''Licensed under the Apache License''"

text \<open>
  \<open>add_header\<close> returns \<open>None\<close> on each of its three ways out; the model tags the
  result with the way taken, next to the file system it leaves behind.
\<close>

datatype outcome = Unsupported | AlreadyLicensed | Written

definition add_header :: "string \<Rightarrow> fs \<Rightarrow> error + (outcome \<times> fs)" where
  "add_header file_path files =
     (let ext = path_suffix file_path;
          comment = map_of LICENSE_MAP ext
      in case comment of
           None \<Rightarrow> Inr (Unsupported, files)
         | Some cm \<Rightarrow>
             if cm = [] then Inr (Unsupported, files)
             else (case open_readlines files file_path of
                     Inl e \<Rightarrow> Inl e
                   | Inr lines \<Rightarrow>
                       if list_ex (str_in license_marker) (take 15 lines)
                       then Inr (AlreadyLicensed, files)
                       else (case open_writelines files file_path
                                    (commented_header cm @ [[LF]] @ lines) of
                               Inl e \<Rightarrow> Inl e
                             | Inr files' \<Rightarrow> Inr (Written, files'))))"

text \<open>
  \<open>for file in sys.argv[1:]: add_header(file)\<close>. An exception leaves the loop and the
  interpreter exits with status 1; otherwise the status is 0. The result is the exit status
  and the file system at exit.
\<close>

fun process_files :: "string list \<Rightarrow> fs \<Rightarrow> nat \<times> fs" where
  "process_files [] files = (0, files)"
| "process_files (file # rest) files =
     (case add_header file files of
        Inl e \<Rightarrow> (1, files)
      | Inr (oc, files') \<Rightarrow> process_files rest files')"

definition main :: "string list \<Rightarrow> fs \<Rightarrow> nat \<times> fs" where
  "main argv files = process_files (drop 1 argv) files"

subsection \<open>The extension as the specification words it\<close>

text \<open>
  The specification describes the extension as "the substring after the final \<open>.\<close> in the
  filename, including the dot". \<open>spec_extension\<close> follows these words, to be compared with
  \<open>path_suffix\<close>; a name without a dot has the empty extension.
\<close>

definition spec_extension :: "string \<Rightarrow> string" where
  "spec_extension name =
     (if CHR ''.'' \<in> set name
      then CHR ''.'' # rev (takeWhile (\<lambda>c. c \<noteq> CHR ''.'') (rev name))
      else [])"

subsection \<open>Example file systems\<close>

text \<open>
  The files of the specification's scenarios, and a few more, used to run the script on
  concrete inputs.
\<close>

definition text_file :: "string \<Rightarrow> file_entry" where
  "text_file s = \<lparr>content = s, readable = True, writable = True\<rparr>"

definition scenario_files :: fs where
  "scenario_files =
     [''hello.py'' \<mapsto> text_file (''import os'' @ [LF]),
      ''licensed.go'' \<mapsto>
         text_file (''// Licensed under the Apache License, Version 2.0'' @ [LF] @
                    ''package main'' @ [LF]),
      ''notes.txt'' \<mapsto> text_file (''hello'' @ [LF]),
      ''dos.py'' \<mapsto> text_file (''x'' @ [CR, LF]),
      ''empty.sh'' \<mapsto> text_file [],
      ''.py'' \<mapsto> text_file (''y'' @ [LF]),
      ''mac.sh'' \<mapsto> text_file (''a'' @ [CR] @ ''b''),
      ''latin1.go'' \<mapsto>
         text_file (''// Licensed under the Apache License'' @ [LF] @ [CHR 0xE9, LF]),
      ''readonly.py'' \<mapsto> (text_file (''import sys'' @ [LF]))\<lparr>writable := False\<rparr>,
      ''late.rs'' \<mapsto>
         text_file ([LF, LF, LF, LF, LF, LF, LF, LF, LF, LF, LF, LF, LF, LF, LF] @
                    ''// Licensed under the Apache License'' @ [LF])]"

section \<open>Properties of the library functions\<close>

lemma write_newlines_id: "write_newlines s = s"
  by (induction s) (simp_all add: write_newlines_def os_linesep_def)

lemma universal_newlines_no_CR: "CR \<notin> set (universal_newlines s)"
  by (induction s rule: universal_newlines.induct) auto

lemma universal_newlines_id: "CR \<notin> set s \<Longrightarrow> universal_newlines s = s"
  by (induction s rule: universal_newlines.induct) auto

lemma universal_newlines_changes: "CR \<in> set s \<Longrightarrow> universal_newlines s \<noteq> s"
  using universal_newlines_no_CR [of s] by auto

lemma concat_readlines: "concat (readlines s) = s"
  by (induction s) (auto split: list.splits)

lemma readlines_line: "LF \<notin> set l \<Longrightarrow> readlines (l @ LF # s) = (l @ [LF]) # readlines s"
  by (induction l) auto

lemma readlines_lines:
  "(\<forall>h \<in> set hs. \<exists>b. h = b @ [LF] \<and> LF \<notin> set b) \<Longrightarrow> readlines (concat hs @ s) = hs @ readlines s"
proof (induction hs)
  case Nil
  then show ?case by simp
next
  case (Cons h hs)
  then obtain b where b: "h = b @ [LF]" "LF \<notin> set b" by auto
  have "readlines (concat (h # hs) @ s) = readlines (b @ LF # (concat hs @ s))"
    using b by simp
  also have "\<dots> = (b @ [LF]) # readlines (concat hs @ s)"
    using b by (rule_tac readlines_line) simp
  finally show ?case using Cons b by simp
qed

lemma str_in_iff: "str_in sub s \<longleftrightarrow> (\<exists>a b. s = a @ sub @ b)"
proof (induction s)
  case Nil
  then show ?case by auto
next
  case (Cons c cs)
  show ?case
  proof
    assume "str_in sub (c # cs)"
    then consider "prefix sub (c # cs)" | "str_in sub cs" by auto
    then show "\<exists>a b. c # cs = a @ sub @ b"
    proof cases
      case 1
      then obtain b where "c # cs = sub @ b" by (auto simp: prefix_def)
      then have "c # cs = [] @ sub @ b" by simp
      then show ?thesis by blast
    next
      case 2
      then obtain a b where "cs = a @ sub @ b" using Cons by auto
      then have "c # cs = (c # a) @ sub @ b" by simp
      then show ?thesis by blast
    qed
  next
    assume "\<exists>a b. c # cs = a @ sub @ b"
    then obtain a b where ab: "c # cs = a @ sub @ b" by auto
    show "str_in sub (c # cs)"
    proof (cases a)
      case Nil
      then have "prefix sub (c # cs)" using ab by (simp add: prefix_def)
      then show ?thesis by simp
    next
      case (Cons x a')
      then have "cs = a' @ sub @ b" using ab by simp
      then have "str_in sub cs" using Cons.IH by blast
      then show ?thesis by simp
    qed
  qed
qed

lemma utf8_run_ascii: "(of_char c :: nat) < 128 \<Longrightarrow> utf8_run st (c # cs) = (st = Start \<and> utf8_run Start cs)"
  by (cases st) (auto simp: utf8_step_def in_range_def)

lemma utf8_run_universal: "utf8_run st s \<Longrightarrow> utf8_run st (universal_newlines s)"
proof (induction s arbitrary: st rule: universal_newlines.induct)
  case 1
  then show ?case by simp
next
  case (2 c)
  then show ?case by (cases "c = CR") (auto simp: utf8_run_ascii simp del: utf8_run.simps(2))
next
  case (3 c d cs)
  show ?case
  proof (cases "c = CR")
    case True
    note c = this
    show ?thesis
    proof (cases "d = LF")
      case True
      with c 3 show ?thesis by (simp add: utf8_run_ascii del: utf8_run.simps(2))
    next
      case False
      with c 3 show ?thesis by (simp add: utf8_run_ascii del: utf8_run.simps(2))
    qed
  next
    case False
    with 3 show ?thesis by (auto split: option.splits)
  qed
qed

lemma utf8_valid_ascii_append:
  "\<forall>c \<in> set a. (of_char c :: nat) < 128 \<Longrightarrow> utf8_valid (a @ s) = utf8_valid s"
  unfolding utf8_valid_def by (induction a) (simp_all add: utf8_run_ascii del: utf8_run.simps(2))


section \<open>Properties of the rendered header\<close>

lemma rstrip_append_keep:
  assumes "ys \<noteq> []" "\<not> py_isspace (last ys)"
  shows "rstrip (xs @ ys) = xs @ ys"
proof -
  obtain b l where ys: "ys = b @ [l]"
    using assms(1) by (cases ys rule: rev_cases) auto
  then have "\<not> py_isspace l" using assms(2) by simp
  then show ?thesis by (simp add: rstrip_def ys)
qed

lemma LICENSE_LINES_last:
  "line \<in> set LICENSE_LINES \<Longrightarrow> line \<noteq> [] \<Longrightarrow> \<not> py_isspace (last line)"
  by (auto simp: LICENSE_LINES_def py_isspace_def)

lemma comment_line_notice:
  assumes "line \<in> set LICENSE_LINES"
  shows "comment_line c line = (if line = [] then c @ [LF] else c @ '' '' @ line @ [LF])"
proof (cases "line = []")
  case True
  then show ?thesis by (simp add: comment_line_def)
next
  case False
  have "rstrip ((c @ '' '') @ line) = (c @ '' '') @ line"
    using False LICENSE_LINES_last [OF assms False] by (rule rstrip_append_keep)
  then show ?thesis using False by (simp add: comment_line_def)
qed

lemma LICENSE_LINES_chars:
  "line \<in> set LICENSE_LINES \<Longrightarrow> ch \<in> set line \<Longrightarrow> (of_char ch :: nat) < 128 \<and> ch \<noteq> LF \<and> ch \<noteq> CR"
  by (auto simp: LICENSE_LINES_def)

lemma LICENSE_MAP_range:
  "map_of LICENSE_MAP ext = Some c \<Longrightarrow> c = ''#'' \<or> c = ''//''"
  by (auto simp: LICENSE_MAP_def split: if_splits)

lemma length_commented_header: "length (commented_header c) = 13"
  by (simp add: commented_header_def LICENSE_LINES_def)


text \<open>The rendered header, line by line, without \<open>rstrip\<close>.\<close>

lemma commented_header_form:
  "commented_header c =
     map (\<lambda>line. if line = [] then c @ [LF] else c @ '' '' @ line @ [LF]) LICENSE_LINES"
  unfolding commented_header_def
  by (rule map_cong [OF refl]) (simp add: comment_line_notice)

section \<open>The branches of \<open>add_header\<close>\<close>

lemma LICENSE_MAP_nonempty: "map_of LICENSE_MAP ext = Some c \<Longrightarrow> c \<noteq> []"
  by (auto dest: LICENSE_MAP_range)

lemma add_header_unsupported:
  "map_of LICENSE_MAP (path_suffix p) = None \<Longrightarrow> add_header p files = Inr (Unsupported, files)"
  by (simp add: add_header_def)

lemma add_header_supported:
  assumes "map_of LICENSE_MAP (path_suffix p) = Some c"
  shows "add_header p files =
           (case open_readlines files p of
              Inl e \<Rightarrow> Inl e
            | Inr lines \<Rightarrow>
                if list_ex (str_in license_marker) (take 15 lines)
                then Inr (AlreadyLicensed, files)
                else (case open_writelines files p (commented_header c @ [[LF]] @ lines) of
                        Inl e \<Rightarrow> Inl e
                      | Inr files' \<Rightarrow> Inr (Written, files')))"
  using assms LICENSE_MAP_nonempty [OF assms] by (simp add: add_header_def)

lemma open_readlines_ok:
  "files p = Some f \<Longrightarrow> readable f \<Longrightarrow> utf8_valid (content f) \<Longrightarrow>
     open_readlines files p = Inr (readlines (universal_newlines (content f)))"
  by (simp add: open_readlines_def)

lemma add_header_licensed:
  assumes "map_of LICENSE_MAP (path_suffix p) = Some c"
    and "files p = Some f" "readable f" "utf8_valid (content f)"
    and "list_ex (str_in license_marker) (take 15 (readlines (universal_newlines (content f))))"
  shows "add_header p files = Inr (AlreadyLicensed, files)"
  using assms by (simp add: add_header_supported open_readlines_ok)

lemma add_header_written:
  assumes "map_of LICENSE_MAP (path_suffix p) = Some c"
    and "files p = Some f" "readable f" "utf8_valid (content f)" "writable f"
    and "\<not> list_ex (str_in license_marker) (take 15 (readlines (universal_newlines (content f))))"
  shows "add_header p files =
           Inr (Written, files(p \<mapsto> f\<lparr>content :=
                  concat (commented_header c) @ [LF] @ universal_newlines (content f)\<rparr>))"
  using assms
  by (simp add: add_header_supported open_readlines_ok open_writelines_def write_newlines_id concat_readlines)

lemma add_header_absent:
  assumes "map_of LICENSE_MAP (path_suffix p) = Some c" and "files p = None"
  shows "add_header p files = Inl FileNotFoundError"
  using assms by (simp add: add_header_supported open_readlines_def)

lemma add_header_unreadable:
  assumes "map_of LICENSE_MAP (path_suffix p) = Some c"
    and "files p = Some f" "\<not> readable f"
  shows "add_header p files = Inl PermissionError"
  using assms by (simp add: add_header_supported open_readlines_def)

lemma add_header_undecodable:
  assumes "map_of LICENSE_MAP (path_suffix p) = Some c"
    and "files p = Some f" "readable f" "\<not> utf8_valid (content f)"
  shows "add_header p files = Inl UnicodeDecodeError"
  using assms by (simp add: add_header_supported open_readlines_def)

lemma add_header_unwritable:
  assumes "map_of LICENSE_MAP (path_suffix p) = Some c"
    and "files p = Some f" "readable f" "utf8_valid (content f)"
    and "\<not> list_ex (str_in license_marker) (take 15 (readlines (universal_newlines (content f))))"
    and "\<not> writable f"
  shows "add_header p files = Inl PermissionError"
  using assms by (simp add: add_header_supported open_readlines_ok open_writelines_def)

lemma marker_in_first_lines:
  "list_ex (str_in license_marker) (take 15 ls) \<longleftrightarrow>
     (\<exists>line \<in> set (take 15 ls). \<exists>a b. line = a @ ''Licensed under the Apache License'' @ b)"
  by (simp add: list_ex_iff str_in_iff license_marker_def)

lemma add_header_Written_inv:
  assumes "add_header p files = Inr (Written, files')"
  shows "\<exists>c f. map_of LICENSE_MAP (path_suffix p) = Some c \<and> files p = Some f \<and> readable f \<and>
           utf8_valid (content f) \<and> writable f \<and>
           \<not> list_ex (str_in license_marker) (take 15 (readlines (universal_newlines (content f)))) \<and>
           files' = files(p \<mapsto> f\<lparr>content :=
                  concat (commented_header c) @ [LF] @ universal_newlines (content f)\<rparr>)"
proof (cases "map_of LICENSE_MAP (path_suffix p)")
  case None
  then show ?thesis using assms by (simp add: add_header_unsupported)
next
  case (Some c)
  show ?thesis
    using assms unfolding add_header_supported [OF Some]
    by (auto simp: Some open_readlines_def open_writelines_def write_newlines_id concat_readlines
             split: option.splits if_splits sum.splits)
qed

lemma add_header_not_Written:
  assumes "add_header p files = Inr (oc, files')" "oc \<noteq> Written"
  shows "files' = files"
proof (cases "map_of LICENSE_MAP (path_suffix p)")
  case None
  then show ?thesis using assms by (simp add: add_header_unsupported)
next
  case (Some c)
  show ?thesis
    using assms unfolding add_header_supported [OF Some]
    by (auto split: sum.splits if_splits)
qed

section \<open>Properties of \<open>path_suffix\<close>\<close>

lemma rfind_split:
  "c \<in> set s \<Longrightarrow> \<exists>a b. s = a @ c # b \<and> c \<notin> set b \<and> rfind c s = int (length a)"
proof (induction s)
  case Nil
  then show ?case by simp
next
  case (Cons x xs)
  show ?case
  proof (cases "c \<in> set xs")
    case True
    then obtain a b where ab: "xs = a @ c # b" "c \<notin> set b" "rfind c xs = int (length a)"
      using Cons.IH by blast
    then have "x # xs = (x # a) @ c # b \<and> c \<notin> set b \<and> rfind c (x # xs) = int (length (x # a))"
      by simp
    then show ?thesis by blast
  next
    case False
    then have x: "x = c" using Cons.prems by simp
    have "rfind c xs = - 1" using False by (induction xs) (auto simp: Let_def split: if_splits)
    then have "x # xs = [] @ c # xs \<and> c \<notin> set xs \<and> rfind c (x # xs) = int (length ([]::string))"
      using x False by simp
    then show ?thesis by blast
  qed
qed

lemma rfind_absent: "c \<notin> set s \<Longrightarrow> rfind c s = - 1"
  by (induction s) (auto simp: Let_def)

lemma path_suffix_spec:
  "path_suffix p =
     (let n = path_name p; e = spec_extension n in if e = n \<or> e = ''.'' then [] else e)"
proof (cases "CHR ''.'' \<in> set (path_name p)")
  case False
  then show ?thesis
    by (simp add: path_suffix_def spec_extension_def rfind_absent Let_def)
next
  case True
  then obtain a b where ab: "path_name p = a @ CHR ''.'' # b" "CHR ''.'' \<notin> set b"
      "rfind (CHR ''.'') (path_name p) = int (length a)"
    using rfind_split by blast
  have tw: "takeWhile (\<lambda>c. c \<noteq> CHR ''.'') (rev b @ CHR ''.'' # rev a) = rev b"
    using ab(2) by (auto simp: takeWhile_tail)
  have e: "spec_extension (path_name p) = CHR ''.'' # b"
    using True ab(1) tw by (simp add: spec_extension_def)
  show ?thesis
    unfolding path_suffix_def Let_def e ab(3) by (auto simp: ab(1))
qed

section \<open>A file that starts with the rendered header\<close>

lemma marker_chars:
  "c = ''#'' \<or> c = ''//'' \<Longrightarrow> ch \<in> set c \<Longrightarrow> (of_char ch :: nat) < 128 \<and> ch \<noteq> LF \<and> ch \<noteq> CR"
  by auto

lemma header_line_form:
  assumes "h \<in> set (commented_header c)"
  shows "\<exists>line \<in> set LICENSE_LINES. h = c @ (if line = [] then [] else CHR '' '' # line) @ [LF]"
proof -
  from assms obtain line where l: "line \<in> set LICENSE_LINES" "h = comment_line c line"
    by (auto simp: commented_header_def)
  then have "h = c @ (if line = [] then [] else CHR '' '' # line) @ [LF]"
    by (simp add: comment_line_notice)
  with l(1) show ?thesis by blast
qed

lemma header_line_shape:
  assumes "c = ''#'' \<or> c = ''//''" "h \<in> set (commented_header c)"
  shows "\<exists>body. h = c @ body @ [LF] \<and> LF \<notin> set (c @ body)"
proof -
  from header_line_form [OF assms(2)] obtain line where l: "line \<in> set LICENSE_LINES"
    "h = c @ (if line = [] then [] else CHR '' '' # line) @ [LF]" by blast
  have "LF \<notin> set (c @ (if line = [] then [] else CHR '' '' # line))"
    using marker_chars [OF assms(1)] LICENSE_LINES_chars [OF l(1)] by auto
  with l(2) show ?thesis by blast
qed

lemma header_line_chars:
  assumes "c = ''#'' \<or> c = ''//''" "h \<in> set (commented_header c)" "ch \<in> set h"
  shows "(of_char ch :: nat) < 128 \<and> ch \<noteq> CR"
proof -
  from header_line_form [OF assms(2)] obtain line where l: "line \<in> set LICENSE_LINES"
    "h = c @ (if line = [] then [] else CHR '' '' # line) @ [LF]" by blast
  then have "ch \<in> set c \<or> ch = CHR '' '' \<or> ch \<in> set line \<or> ch = LF"
    using assms(3) by (auto split: if_splits)
  then show ?thesis
    using marker_chars [OF assms(1)] LICENSE_LINES_chars [OF l(1)] by auto
qed

lemma header_third_line:
  \<open>commented_header c ! 2 =
     (c @ '' '') @ ''Licensed under the Apache License'' @ ('', Version 2.0 (the "License");'' @ [LF])\<close>
proof -
  have "commented_header c ! 2 = comment_line c (LICENSE_LINES ! 2)"
    by (simp add: commented_header_def LICENSE_LINES_def)
  moreover have "LICENSE_LINES ! 2 \<in> set LICENSE_LINES"
    by (simp add: LICENSE_LINES_def)
  ultimately have "commented_header c ! 2 =
      (if LICENSE_LINES ! 2 = [] then c @ [LF] else c @ '' '' @ LICENSE_LINES ! 2 @ [LF])"
    by (simp add: comment_line_notice)
  then show ?thesis by (simp add: LICENSE_LINES_def)
qed

lemma header_third_line_marked: "str_in license_marker (commented_header c ! 2)"
  unfolding str_in_iff license_marker_def header_third_line by blast

text \<open>What \<open>readlines\<close> returns on a file that starts with a rendered header.\<close>

lemma readlines_after_header:
  assumes c: "c = ''#'' \<or> c = ''//''"
  shows "readlines (universal_newlines (concat (commented_header c) @ [LF] @ universal_newlines s)) =
           commented_header c @ [[LF]] @ readlines (universal_newlines s)"
proof -
  have "CR \<notin> set (concat (commented_header c) @ [LF] @ universal_newlines s)"
    using header_line_chars [OF c] universal_newlines_no_CR [of s] by auto
  then have "universal_newlines (concat (commented_header c) @ [LF] @ universal_newlines s) =
      concat (commented_header c) @ [LF] @ universal_newlines s"
    by (rule universal_newlines_id)
  moreover have "\<forall>h \<in> set (commented_header c @ [[LF]]). \<exists>b. h = b @ [LF] \<and> LF \<notin> set b"
  proof
    fix h assume "h \<in> set (commented_header c @ [[LF]])"
    then consider "h \<in> set (commented_header c)" | "h = [LF]" by auto
    then show "\<exists>b. h = b @ [LF] \<and> LF \<notin> set b"
    proof cases
      case 1
      from header_line_shape [OF c 1] obtain body where "h = c @ body @ [LF]" "LF \<notin> set (c @ body)"
        by blast
      then have "h = (c @ body) @ [LF] \<and> LF \<notin> set (c @ body)" by simp
      then show ?thesis by blast
    next
      case 2
      then have "h = [] @ [LF] \<and> LF \<notin> set ([]::string)" by simp
      then show ?thesis by blast
    qed
  qed
  then have "readlines (concat (commented_header c @ [[LF]]) @ universal_newlines s) =
      (commented_header c @ [[LF]]) @ readlines (universal_newlines s)"
    by (rule readlines_lines)
  ultimately show ?thesis by simp
qed

lemma utf8_valid_after_header:
  assumes c: "c = ''#'' \<or> c = ''//''" and v: "utf8_valid s"
  shows "utf8_valid (concat (commented_header c) @ [LF] @ universal_newlines s)"
proof -
  have "\<forall>ch \<in> set (concat (commented_header c) @ [LF]). (of_char ch :: nat) < 128"
    using header_line_chars [OF c] by auto
  then have "utf8_valid ((concat (commented_header c) @ [LF]) @ universal_newlines s) =
      utf8_valid (universal_newlines s)"
    by (rule utf8_valid_ascii_append)
  moreover have "utf8_valid (universal_newlines s)"
    using v unfolding utf8_valid_def by (rule utf8_run_universal)
  ultimately show ?thesis by simp
qed

lemma licensed_after_header:
  assumes c: "c = ''#'' \<or> c = ''//''"
    and ls_def: "ls = readlines (universal_newlines (concat (commented_header c) @ [LF] @ universal_newlines s))"
  shows "2 < length ls \<and> str_in license_marker (ls ! 2) \<and>
         list_ex (str_in license_marker) (take 15 ls)"
proof -
  have ls: "ls = commented_header c @ [[LF]] @ readlines (universal_newlines s)"
    unfolding ls_def using c by (rule readlines_after_header)
  have len: "2 < length ls" by (simp add: ls length_commented_header)
  have third: "ls ! 2 = commented_header c ! 2"
    by (simp add: ls nth_append length_commented_header)
  have m: "str_in license_marker (ls ! 2)"
    unfolding third by (rule header_third_line_marked)
  have "take 15 ls ! 2 = ls ! 2" by simp
  moreover have "2 < length (take 15 ls)" using len by simp
  ultimately have "ls ! 2 \<in> set (take 15 ls)" by (metis nth_mem)
  then have "list_ex (str_in license_marker) (take 15 ls)"
    using m by (auto simp: list_ex_iff)
  with len m show ?thesis by blast
qed

section \<open>The argument loop\<close>

lemma process_files_append:
  "process_files (xs @ ys) files =
     (case process_files xs files of
        (st, files') \<Rightarrow> if st = 0 then process_files ys files' else (st, files'))"
  by (induction xs arbitrary: files) (auto split: sum.splits prod.splits)

lemma process_files_status: "fst (process_files xs files) = 0 \<or> fst (process_files xs files) = 1"
  by (induction xs arbitrary: files) (auto split: sum.splits prod.splits)

lemma process_files_failure:
  "fst (process_files xs files) \<noteq> 0 \<longleftrightarrow>
     (\<exists>pre file_path post files1 e. xs = pre @ file_path # post \<and>
        process_files pre files = (0, files1) \<and> add_header file_path files1 = Inl e)"
proof (induction xs arbitrary: files)
  case Nil
  then show ?case by simp
next
  case (Cons x xs)
  show ?case
  proof (cases "add_header x files")
    case (Inl e)
    then have "x # xs = [] @ x # xs \<and> process_files [] files = (0, files) \<and> add_header x files = Inl e"
      by simp
    then have "\<exists>pre file_path post files1 e. x # xs = pre @ file_path # post \<and>
        process_files pre files = (0, files1) \<and> add_header file_path files1 = Inl e"
      by blast
    then show ?thesis using Inl by simp
  next
    case (Inr r)
    obtain oc files' where r: "r = (oc, files')" by (cases r)
    have step: "process_files (x # xs) files = process_files xs files'"
      using Inr r by simp
    show ?thesis
    proof
      assume "fst (process_files (x # xs) files) \<noteq> 0"
      then have "fst (process_files xs files') \<noteq> 0" using step by simp
      then obtain pre file_path post files1 e where p: "xs = pre @ file_path # post"
        "process_files pre files' = (0, files1)" "add_header file_path files1 = Inl e"
        using Cons.IH by blast
      then have "x # xs = (x # pre) @ file_path # post \<and>
          process_files (x # pre) files = (0, files1) \<and> add_header file_path files1 = Inl e"
        using Inr r by simp
      then show "\<exists>pre file_path post files1 e. x # xs = pre @ file_path # post \<and>
        process_files pre files = (0, files1) \<and> add_header file_path files1 = Inl e"
        by blast
    next
      assume "\<exists>pre file_path post files1 e. x # xs = pre @ file_path # post \<and>
        process_files pre files = (0, files1) \<and> add_header file_path files1 = Inl e"
      then obtain pre file_path post files1 e where p: "x # xs = pre @ file_path # post"
        "process_files pre files = (0, files1)" "add_header file_path files1 = Inl e"
        by blast
      have "process_files (pre @ file_path # post) files = (1, files1)"
        using p(2,3) by (simp add: process_files_append)
      then show "fst (process_files (x # xs) files) \<noteq> 0"
        using p(1) by simp
    qed
  qed
qed

section \<open>A run on a concrete file\<close>

lemma hello_py_written:
  "add_header ''hello.py'' scenario_files =
     Inr (Written, scenario_files(''hello.py'' \<mapsto>
            text_file (concat (commented_header ''#'') @ [LF] @ ''import os'' @ [LF])))"
proof -
  have m: "map_of LICENSE_MAP (path_suffix ''hello.py'') = Some ''#''"
    by (simp add: path_suffix_def path_name_def LICENSE_MAP_def)
  have f: "scenario_files ''hello.py'' = Some (text_file (''import os'' @ [LF]))"
    by (simp add: scenario_files_def)
  have v: "utf8_valid (''import os'' @ [LF])"
    by (simp add: utf8_valid_def utf8_step_def)
  have n: "\<not> list_ex (str_in license_marker)
              (take 15 (readlines (universal_newlines (''import os'' @ [LF]))))"
    by (simp add: license_marker_def)
  show ?thesis
    using add_header_written [where files = scenario_files, OF m f] v n by (simp add: text_file_def)
qed

section \<open>The claims of the specification\<close>

subsection \<open>C1: idempotence\<close>

text \<open>
  C1. Whenever \<open>add_header\<close> returns normally on a path, a second call on the file system it
  left behind returns the same file system again: it writes nothing. After a call that wrote
  the header, the second call leaves through the already-licensed return, because the third
  line it reads, the third line of the rendered header, contains
  "Licensed under the Apache License" and lies within the first 15 lines. After a call that
  skipped the file, the second call skips it in the same way.
\<close>

theorem inject_idempotent:
  assumes "add_header p files = Inr (oc, files1)"
  shows "add_header p files1 = Inr (if oc = Written then AlreadyLicensed else oc, files1) \<and>
         (oc = Written \<longrightarrow>
            (\<exists>f1. files1 p = Some f1 \<and>
               2 < length (readlines (universal_newlines (content f1))) \<and>
               (\<exists>a b. readlines (universal_newlines (content f1)) ! 2 =
                        a @ ''Licensed under the Apache License'' @ b)))"
proof (cases "oc = Written")
  case False
  then have "files1 = files" using assms by (rule_tac add_header_not_Written)
  then show ?thesis using assms False by simp
next
  case True
  from add_header_Written_inv [OF assms [unfolded True]] obtain c f where
    inv: "map_of LICENSE_MAP (path_suffix p) = Some c" "files p = Some f" "readable f"
      "utf8_valid (content f)"
      "files1 = files(p \<mapsto> f\<lparr>content :=
                  concat (commented_header c) @ [LF] @ universal_newlines (content f)\<rparr>)"
    by blast
  let ?f1 = "f\<lparr>content := concat (commented_header c) @ [LF] @ universal_newlines (content f)\<rparr>"
  note c = LICENSE_MAP_range [OF inv(1)]
  have f1: "files1 p = Some ?f1" by (simp add: inv(5))
  have r: "readable ?f1" using inv(3) by simp
  have v: "utf8_valid (content ?f1)"
    using utf8_valid_after_header [OF c inv(4)] by simp
  have l: "2 < length (readlines (universal_newlines (content ?f1))) \<and>
           str_in license_marker (readlines (universal_newlines (content ?f1)) ! 2) \<and>
           list_ex (str_in license_marker) (take 15 (readlines (universal_newlines (content ?f1))))"
    using licensed_after_header [OF c refl, of "content f"] by simp
  have a: "add_header p files1 = Inr (AlreadyLicensed, files1)"
    using add_header_licensed [where files = files1, OF inv(1) f1 r v] l by blast
  have "\<exists>a b. readlines (universal_newlines (content ?f1)) ! 2 =
                        a @ ''Licensed under the Apache License'' @ b"
    using l by (simp add: str_in_iff license_marker_def)
  then have "\<exists>f1. files1 p = Some f1 \<and>
               2 < length (readlines (universal_newlines (content f1))) \<and>
               (\<exists>a b. readlines (universal_newlines (content f1)) ! 2 =
                        a @ ''Licensed under the Apache License'' @ b)"
    using f1 l by blast
  then show ?thesis using a True by simp
qed

text \<open>
  C1 on \<open>hello.py\<close>: the first call writes the header, the second call finds it.
\<close>

theorem inject_idempotent_witness:
  "add_header ''hello.py'' scenario_files =
     Inr (Written, scenario_files(''hello.py'' \<mapsto>
            text_file (concat (commented_header ''#'') @ [LF] @ ''import os'' @ [LF]))) \<and>
   add_header ''hello.py'' (scenario_files(''hello.py'' \<mapsto>
            text_file (concat (commented_header ''#'') @ [LF] @ ''import os'' @ [LF]))) =
     Inr (AlreadyLicensed, scenario_files(''hello.py'' \<mapsto>
            text_file (concat (commented_header ''#'') @ [LF] @ ''import os'' @ [LF])))"
  using hello_py_written inject_idempotent [OF hello_py_written] by simp

subsection \<open>C2: content preservation\<close>

text \<open>
  C2 does not hold as stated. \<open>dos.py\<close> holds \<open>x\r\n\<close>; after the header and the blank
  line the rewritten file holds \<open>x\n\<close>: the file is read and written in text mode, and
  reading turns \<open>\r\n\<close> into \<open>\n\<close>.
\<close>

theorem content_preservation_counterexample:
  "scenario_files ''dos.py'' = Some (text_file (''x'' @ [CR, LF])) \<and>
   add_header ''dos.py'' scenario_files =
     Inr (Written, scenario_files(''dos.py'' \<mapsto>
            text_file (concat (commented_header ''#'') @ [LF] @ ''x'' @ [LF]))) \<and>
   concat (commented_header ''#'') @ [LF] @ ''x'' @ [LF] \<noteq>
   concat (commented_header ''#'') @ [LF] @ ''x'' @ [CR, LF]"
proof -
  have m: "map_of LICENSE_MAP (path_suffix ''dos.py'') = Some ''#''"
    by (simp add: path_suffix_def path_name_def LICENSE_MAP_def)
  have f: "scenario_files ''dos.py'' = Some (text_file (''x'' @ [CR, LF]))"
    by (simp add: scenario_files_def)
  have v: "utf8_valid (''x'' @ [CR, LF])"
    by (simp add: utf8_valid_def utf8_step_def)
  have n: "\<not> list_ex (str_in license_marker)
              (take 15 (readlines (universal_newlines (''x'' @ [CR, LF]))))"
    by (simp add: license_marker_def)
  have w: "add_header ''dos.py'' scenario_files =
     Inr (Written, scenario_files(''dos.py'' \<mapsto>
            text_file (concat (commented_header ''#'') @ [LF] @ ''x'' @ [LF])))"
    using add_header_written [where files = scenario_files, OF m f] v n by (simp add: text_file_def)
  show ?thesis using f w by simp
qed

text \<open>
  C2, amended. For every file that receives a header, the content after the header block and
  the single blank line is the prior content as text mode reads it, which is
  \<open>universal_newlines\<close> of the prior bytes: every \<open>\r\n\<close> pair and every lone \<open>\r\<close>
  has become \<open>\n\<close>. It is byte for byte the prior content exactly when the prior content
  holds no \<open>\r\<close>. No other file changes, and the file keeps its permissions.
\<close>

theorem content_preservation:
  assumes "add_header p files = Inr (Written, files')"
  shows "\<exists>c f. map_of LICENSE_MAP (path_suffix p) = Some c \<and> files p = Some f \<and>
           files' = files(p \<mapsto> f\<lparr>content :=
              concat (commented_header c) @ [LF] @ universal_newlines (content f)\<rparr>) \<and>
           (universal_newlines (content f) = content f \<longleftrightarrow> CR \<notin> set (content f))"
proof -
  from add_header_Written_inv [OF assms] obtain c f where
    inv: "map_of LICENSE_MAP (path_suffix p) = Some c" "files p = Some f"
      "files' = files(p \<mapsto> f\<lparr>content :=
                  concat (commented_header c) @ [LF] @ universal_newlines (content f)\<rparr>)"
    by blast
  have "universal_newlines (content f) = content f \<longleftrightarrow> CR \<notin> set (content f)"
    using universal_newlines_id universal_newlines_changes by blast
  with inv show ?thesis by blast
qed

text \<open>
  C2, amended, on \<open>hello.py\<close>, which holds no \<open>\r\<close>: its bytes follow the header unchanged.
\<close>

theorem content_preservation_witness:
  "add_header ''hello.py'' scenario_files =
     Inr (Written, scenario_files(''hello.py'' \<mapsto>
            text_file (concat (commented_header ''#'') @ [LF] @ ''import os'' @ [LF]))) \<and>
   universal_newlines (''import os'' @ [LF]) = ''import os'' @ [LF]"
proof -
  from content_preservation [OF hello_py_written] obtain c f where
    f: "scenario_files ''hello.py'' = Some f" and
    u: "universal_newlines (content f) = content f \<longleftrightarrow> CR \<notin> set (content f)"
    by blast
  have "f = text_file (''import os'' @ [LF])"
    using f by (simp add: scenario_files_def)
  then have "universal_newlines (''import os'' @ [LF]) = ''import os'' @ [LF]"
    using u by (simp add: text_file_def)
  with hello_py_written show ?thesis by blast
qed

subsection \<open>C3: extension dispatch\<close>

text \<open>
  C3. The table holds exactly the eight entries \<open>.sh\<close> and \<open>.py\<close> for \<open>#\<close>, and
  \<open>.rs\<close>, \<open>.go\<close>, \<open>.js\<close>, \<open>.jsx\<close>, \<open>.ts\<close>, \<open>.tsx\<close> for \<open>//\<close>; the lookup
  compares strings, so case and the leading dot count. When the extension of a path is in the
  table and a header is written, the written file starts with the notice lines rendered with
  the table's marker, and every rendered line starts with that marker. When the extension is
  not in the table, \<open>add_header\<close> returns normally and the file system is unchanged.
\<close>

theorem extension_dispatch:
  "map_of LICENSE_MAP ext =
     (if ext = ''.sh'' \<or> ext = ''.py'' then Some ''#''
      else if ext = ''.rs'' \<or> ext = ''.go'' \<or> ext = ''.js'' \<or> ext = ''.jsx'' \<or>
              ext = ''.ts'' \<or> ext = ''.tsx'' then Some ''//''
      else None) \<and>
   (map_of LICENSE_MAP (path_suffix p) = Some c \<and> add_header p files = Inr (Written, files')
      \<longrightarrow> (\<exists>f rest. files p = Some f \<and>
             files' = files(p \<mapsto> f\<lparr>content := concat (map (comment_line c) LICENSE_LINES) @ rest\<rparr>)) \<and>
          (\<forall>h \<in> set (map (comment_line c) LICENSE_LINES). prefix c h)) \<and>
   (map_of LICENSE_MAP (path_suffix p) = None \<longrightarrow> add_header p files = Inr (Unsupported, files))"
proof (intro conjI impI)
  show "map_of LICENSE_MAP ext =
     (if ext = ''.sh'' \<or> ext = ''.py'' then Some ''#''
      else if ext = ''.rs'' \<or> ext = ''.go'' \<or> ext = ''.js'' \<or> ext = ''.jsx'' \<or>
              ext = ''.ts'' \<or> ext = ''.tsx'' then Some ''//''
      else None)"
    by (simp add: LICENSE_MAP_def)
next
  assume h: "map_of LICENSE_MAP (path_suffix p) = Some c \<and> add_header p files = Inr (Written, files')"
  then obtain c' f where inv: "map_of LICENSE_MAP (path_suffix p) = Some c'" "files p = Some f"
    "files' = files(p \<mapsto> f\<lparr>content :=
                  concat (commented_header c') @ [LF] @ universal_newlines (content f)\<rparr>)"
    using add_header_Written_inv by blast
  then have "c' = c" using h by simp
  then show "\<exists>f rest. files p = Some f \<and>
             files' = files(p \<mapsto> f\<lparr>content := concat (map (comment_line c) LICENSE_LINES) @ rest\<rparr>)"
    using inv by (auto simp: commented_header_def)
next
  show "\<forall>h \<in> set (map (comment_line c) LICENSE_LINES). prefix c h"
    by (auto simp: comment_line_notice)
next
  assume "map_of LICENSE_MAP (path_suffix p) = None"
  then show "add_header p files = Inr (Unsupported, files)"
    by (rule add_header_unsupported)
qed

text \<open>
  C3 on \<open>hello.py\<close> (marker \<open>#\<close>) and \<open>notes.txt\<close> (skipped); \<open>.PY\<close> and \<open>py\<close> are
  not in the table.
\<close>

theorem extension_dispatch_witness:
  "map_of LICENSE_MAP (path_suffix ''hello.py'') = Some ''#'' \<and>
   add_header ''hello.py'' scenario_files =
     Inr (Written, scenario_files(''hello.py'' \<mapsto>
            text_file (concat (commented_header ''#'') @ [LF] @ ''import os'' @ [LF]))) \<and>
   prefix ''#'' (comment_line ''#'' ''Copyright 2025 chenjjiaa'') \<and>
   map_of LICENSE_MAP (path_suffix ''notes.txt'') = None \<and>
   add_header ''notes.txt'' scenario_files = Inr (Unsupported, scenario_files) \<and>
   map_of LICENSE_MAP ''.PY'' = None \<and> map_of LICENSE_MAP ''py'' = None"
proof -
  have s1: "path_suffix ''hello.py'' = ''.py''"
    by (simp add: path_suffix_def path_name_def)
  have s2: "path_suffix ''notes.txt'' = ''.txt''"
    by (simp add: path_suffix_def path_name_def)
  have m1: "map_of LICENSE_MAP (path_suffix ''hello.py'') = Some ''#''"
    using extension_dispatch [of "''.py''", THEN conjunct1] s1 by simp
  have m2: "map_of LICENSE_MAP (path_suffix ''notes.txt'') = None"
    using extension_dispatch [of "''.txt''", THEN conjunct1] s2 by simp
  have m3: "map_of LICENSE_MAP ''.PY'' = None"
    using extension_dispatch [of "''.PY''", THEN conjunct1] by simp
  have m4: "map_of LICENSE_MAP ''py'' = None"
    using extension_dispatch [of "''py''", THEN conjunct1] by simp
  note w = hello_py_written
  have p: "prefix ''#'' (comment_line ''#'' ''Copyright 2025 chenjjiaa'')"
    using extension_dispatch [of "''.py''" "''hello.py''" "''#''" scenario_files
       "scenario_files(''hello.py'' \<mapsto>
            text_file (concat (commented_header ''#'') @ [LF] @ ''import os'' @ [LF]))"]
       m1 w
    by (simp add: LICENSE_LINES_def)
  have u: "add_header ''notes.txt'' scenario_files = Inr (Unsupported, scenario_files)"
    using extension_dispatch [of "''.txt''" "''notes.txt''" "''#''" scenario_files scenario_files] m2
    by simp
  show ?thesis using m1 w p m2 u m3 m4 by blast
qed

subsection \<open>C4: header shape\<close>

text \<open>
  C4 does not hold as stated. \<open>mac.sh\<close> holds \<open>a\rb\<close>; in the rewritten file the header
  and the blank line are followed by \<open>a\nb\<close>, which is not the prior content.
\<close>

theorem header_shape_counterexample:
  "scenario_files ''mac.sh'' = Some (text_file (''a'' @ [CR] @ ''b'')) \<and>
   add_header ''mac.sh'' scenario_files =
     Inr (Written, scenario_files(''mac.sh'' \<mapsto>
            text_file (concat (commented_header ''#'') @ [LF] @ ''a'' @ [LF] @ ''b''))) \<and>
   concat (commented_header ''#'') @ [LF] @ ''a'' @ [LF] @ ''b'' \<noteq>
   concat (commented_header ''#'') @ [LF] @ ''a'' @ [CR] @ ''b''"
proof -
  have m: "map_of LICENSE_MAP (path_suffix ''mac.sh'') = Some ''#''"
    by (simp add: path_suffix_def path_name_def LICENSE_MAP_def)
  have f: "scenario_files ''mac.sh'' = Some (text_file (''a'' @ [CR] @ ''b''))"
    by (simp add: scenario_files_def)
  have v: "utf8_valid (''a'' @ [CR] @ ''b'')"
    by (simp add: utf8_valid_def utf8_step_def)
  have n: "\<not> list_ex (str_in license_marker)
              (take 15 (readlines (universal_newlines (''a'' @ [CR] @ ''b''))))"
    by (simp add: license_marker_def)
  have w: "add_header ''mac.sh'' scenario_files =
     Inr (Written, scenario_files(''mac.sh'' \<mapsto>
            text_file (concat (commented_header ''#'') @ [LF] @ ''a'' @ [LF] @ ''b'')))"
    using add_header_written [where files = scenario_files, OF m f] v n by (simp add: text_file_def)
  show ?thesis using f w by simp
qed

text \<open>
  C4, amended. Whenever a header is written, the new content of the file is the 13 rendered
  notice lines, one line feed, and the prior content as text mode read it
  (\<open>universal_newlines\<close> of the prior bytes, which is the prior bytes themselves when they
  hold no \<open>\r\<close>). Each rendered line is the table's marker, a body and a line feed, with no
  other line feed in it, so that reading the new file gives the 13 header lines, one blank
  line, and then the lines the script had read.
\<close>

theorem header_shape:
  assumes "add_header p files = Inr (Written, files')"
  shows "\<exists>c f f'. map_of LICENSE_MAP (path_suffix p) = Some c \<and> files p = Some f \<and>
           files' = files(p \<mapsto> f') \<and>
           content f' = concat (commented_header c) @ [LF] @ universal_newlines (content f) \<and>
           (CR \<notin> set (content f) \<longrightarrow>
              content f' = concat (commented_header c) @ [LF] @ content f) \<and>
           readlines (universal_newlines (content f')) =
             commented_header c @ [[LF]] @ readlines (universal_newlines (content f)) \<and>
           length (commented_header c) = 13 \<and>
           (\<forall>h \<in> set (commented_header c). \<exists>body. h = c @ body @ [LF] \<and> LF \<notin> set (c @ body))"
proof -
  from add_header_Written_inv [OF assms] obtain c f where
    inv: "map_of LICENSE_MAP (path_suffix p) = Some c" "files p = Some f"
      "files' = files(p \<mapsto> f\<lparr>content :=
                  concat (commented_header c) @ [LF] @ universal_newlines (content f)\<rparr>)"
    by blast
  let ?f' = "f\<lparr>content := concat (commented_header c) @ [LF] @ universal_newlines (content f)\<rparr>"
  note c = LICENSE_MAP_range [OF inv(1)]
  have 1: "content ?f' = concat (commented_header c) @ [LF] @ universal_newlines (content f)"
    by simp
  have 2: "CR \<notin> set (content f) \<longrightarrow>
             content ?f' = concat (commented_header c) @ [LF] @ content f"
    by (simp add: universal_newlines_id)
  have 3: "readlines (universal_newlines (content ?f')) =
             commented_header c @ [[LF]] @ readlines (universal_newlines (content f))"
    using readlines_after_header [OF c] by simp
  have 4: "\<forall>h \<in> set (commented_header c). \<exists>body. h = c @ body @ [LF] \<and> LF \<notin> set (c @ body)"
    using header_line_shape [OF c] by blast
  from inv 1 2 3 4 length_commented_header show ?thesis by blast
qed

text \<open>
  C4, amended, on \<open>hello.py\<close>: the rewritten file reads as the 13 header lines, one blank
  line and the one line the file held.
\<close>

theorem header_shape_witness:
  "add_header ''hello.py'' scenario_files =
     Inr (Written, scenario_files(''hello.py'' \<mapsto>
            text_file (concat (commented_header ''#'') @ [LF] @ ''import os'' @ [LF]))) \<and>
   readlines (universal_newlines (concat (commented_header ''#'') @ [LF] @ ''import os'' @ [LF])) =
     commented_header ''#'' @ [[LF]] @ [''import os'' @ [LF]] \<and>
   length (commented_header ''#'') = 13"
proof -
  let ?new = "text_file (concat (commented_header ''#'') @ [LF] @ ''import os'' @ [LF])"
  from header_shape [OF hello_py_written] obtain c f f' where
    c: "map_of LICENSE_MAP (path_suffix ''hello.py'') = Some c" and
    f: "scenario_files ''hello.py'' = Some f" and
    f': "scenario_files(''hello.py'' \<mapsto> ?new) = scenario_files(''hello.py'' \<mapsto> f')" and
    l: "readlines (universal_newlines (content f')) =
          commented_header c @ [[LF]] @ readlines (universal_newlines (content f))" and
    n: "length (commented_header c) = 13"
    by blast
  have c': "c = ''#''"
    using c by (simp add: path_suffix_def path_name_def LICENSE_MAP_def)
  have f0: "f = text_file (''import os'' @ [LF])"
    using f by (simp add: scenario_files_def)
  have "(scenario_files(''hello.py'' \<mapsto> ?new)) ''hello.py'' =
        (scenario_files(''hello.py'' \<mapsto> f')) ''hello.py''"
    using f' by simp
  then have f1: "f' = ?new" by simp
  have "readlines (universal_newlines (concat (commented_header ''#'') @ [LF] @ ''import os'' @ [LF])) =
     commented_header ''#'' @ [[LF]] @ [''import os'' @ [LF]]"
    using l unfolding c' f0 f1 by (simp add: text_file_def)
  with hello_py_written n c' show ?thesis by blast
qed

subsection \<open>C5: header line rendering\<close>

text \<open>
  C5. For every line of the License Notice and every comment marker, the rendered line is
  the bare marker followed by a line feed when the notice line is empty, and otherwise the
  marker, one space and the notice line, trimmed of trailing whitespace, followed by a line
  feed. Trimming the whole of marker, space and line, as the script does, and trimming the
  notice line alone give the same line, since no notice line ends in whitespace.
\<close>

theorem header_line_rendering:
  assumes "line \<in> set LICENSE_LINES"
  shows "comment_line comment line =
           (if line = [] then comment @ [LF] else rstrip (comment @ '' '' @ line) @ [LF]) \<and>
         comment_line comment line =
           (if line = [] then comment @ [LF] else comment @ '' '' @ rstrip line @ [LF]) \<and>
         rstrip line = line"
proof -
  have a: "comment_line comment line =
           (if line = [] then comment @ [LF] else rstrip (comment @ '' '' @ line) @ [LF])"
    by (simp add: comment_line_def)
  have r: "rstrip line = line"
  proof (cases "line = []")
    case True
    then show ?thesis by (simp add: rstrip_def)
  next
    case False
    then show ?thesis
      using rstrip_append_keep [of line "[]"] LICENSE_LINES_last [OF assms] by simp
  qed
  have b: "comment_line comment line =
           (if line = [] then comment @ [LF] else comment @ '' '' @ rstrip line @ [LF])"
    using comment_line_notice [OF assms] r by simp
  from a b r show ?thesis by blast
qed

text \<open>
  C5 on the first notice line and on an empty notice line, with the marker \<open>//\<close>.
\<close>

theorem header_line_rendering_witness:
  "''Copyright 2025 chenjjiaa'' \<in> set LICENSE_LINES \<and> [] \<in> set LICENSE_LINES \<and>
   comment_line ''//'' ''Copyright 2025 chenjjiaa'' = ''// Copyright 2025 chenjjiaa'' @ [LF] \<and>
   comment_line ''//'' [] = ''//'' @ [LF]"
proof -
  have m1: "''Copyright 2025 chenjjiaa'' \<in> set LICENSE_LINES"
    by (simp add: LICENSE_LINES_def)
  have m2: "[] \<in> set LICENSE_LINES"
    by (simp add: LICENSE_LINES_def)
  have c1: "comment_line ''//'' ''Copyright 2025 chenjjiaa'' = ''// Copyright 2025 chenjjiaa'' @ [LF]"
    using header_line_rendering [OF m1, of "''//''", THEN conjunct2] by simp
  have c2: "comment_line ''//'' [] = ''//'' @ [LF]"
    using header_line_rendering [OF m2, of "''//''", THEN conjunct2] by simp
  show ?thesis
    using m1 m2 c1 c2 by blast
qed

subsection \<open>C6: files that are already licensed\<close>

text \<open>
  C6 does not hold as stated. \<open>latin1.go\<close> has a supported extension, is readable and
  writable, and its first line contains "Licensed under the Apache License"; its second line
  holds the byte \<open>0xE9\<close>, which is not UTF-8. \<open>readlines\<close> raises \<open>UnicodeDecodeError\<close>
  before any line is looked at, so the call is an error and not a silent skip.
\<close>

theorem already_licensed_skip_counterexample:
  "map_of LICENSE_MAP (path_suffix ''latin1.go'') = Some ''//'' \<and>
   scenario_files ''latin1.go'' =
     Some (text_file (''// Licensed under the Apache License'' @ [LF] @ [CHR 0xE9, LF])) \<and>
   readable (text_file (''// Licensed under the Apache License'' @ [LF] @ [CHR 0xE9, LF])) \<and>
   writable (text_file (''// Licensed under the Apache License'' @ [LF] @ [CHR 0xE9, LF])) \<and>
   str_in ''Licensed under the Apache License''
     (hd (readlines (universal_newlines
        (''// Licensed under the Apache License'' @ [LF] @ [CHR 0xE9, LF])))) \<and>
   add_header ''latin1.go'' scenario_files = Inl UnicodeDecodeError"
proof -
  have m: "map_of LICENSE_MAP (path_suffix ''latin1.go'') = Some ''//''"
    by (simp add: path_suffix_def path_name_def LICENSE_MAP_def)
  have f: "scenario_files ''latin1.go'' =
     Some (text_file (''// Licensed under the Apache License'' @ [LF] @ [CHR 0xE9, LF]))"
    by (simp add: scenario_files_def)
  have r: "readable (text_file (''// Licensed under the Apache License'' @ [LF] @ [CHR 0xE9, LF]))"
    by (simp add: text_file_def)
  have w: "writable (text_file (''// Licensed under the Apache License'' @ [LF] @ [CHR 0xE9, LF]))"
    by (simp add: text_file_def)
  have v: "\<not> utf8_valid (content
      (text_file (''// Licensed under the Apache License'' @ [LF] @ [CHR 0xE9, LF])))"
    by (simp add: text_file_def utf8_valid_def utf8_step_def in_range_def)
  have l: "str_in ''Licensed under the Apache License''
     (hd (readlines (universal_newlines
        (''// Licensed under the Apache License'' @ [LF] @ [CHR 0xE9, LF]))))"
    by simp
  have a: "add_header ''latin1.go'' scenario_files = Inl UnicodeDecodeError"
    using add_header_undecodable [where files = scenario_files, OF m f r v] .
  from m f r w l a show ?thesis by blast
qed

text \<open>
  C6, amended. Let a path have a supported extension and name a readable file whose bytes
  are valid UTF-8. If one of the first 15 lines the script reads contains
  "Licensed under the Apache License", \<open>add_header\<close> returns normally through the
  already-licensed return and the file system is unchanged. If none of them does and the file
  is writable, the header is written, wherever else in the file the substring may occur: the
  new content is, for each notice line, the marker alone or the marker, a space and the
  line, each followed by a line feed, then one line feed, then the lines read.
\<close>

theorem already_licensed_skip:
  assumes "map_of LICENSE_MAP (path_suffix p) = Some c"
    and "files p = Some f" "readable f" "utf8_valid (content f)"
  shows "((\<exists>line \<in> set (take 15 (readlines (universal_newlines (content f)))).
             \<exists>a b. line = a @ ''Licensed under the Apache License'' @ b)
            \<longrightarrow> add_header p files = Inr (AlreadyLicensed, files)) \<and>
         (\<not> (\<exists>line \<in> set (take 15 (readlines (universal_newlines (content f)))).
             \<exists>a b. line = a @ ''Licensed under the Apache License'' @ b) \<and> writable f
            \<longrightarrow> add_header p files =
                  Inr (Written, files(p \<mapsto> f\<lparr>content :=
                     concat (commented_header c) @ [LF] @
                     concat (readlines (universal_newlines (content f)))\<rparr>))) \<and>
         commented_header c =
           map (\<lambda>line. if line = [] then c @ [LF] else c @ '' '' @ line @ [LF]) LICENSE_LINES"
proof -
  have e: "list_ex (str_in license_marker) (take 15 (readlines (universal_newlines (content f)))) \<longleftrightarrow>
      (\<exists>line \<in> set (take 15 (readlines (universal_newlines (content f)))).
             \<exists>a b. line = a @ ''Licensed under the Apache License'' @ b)"
    by (rule marker_in_first_lines)
  have "((\<exists>line \<in> set (take 15 (readlines (universal_newlines (content f)))).
             \<exists>a b. line = a @ ''Licensed under the Apache License'' @ b)
            \<longrightarrow> add_header p files = Inr (AlreadyLicensed, files)) \<and>
         (\<not> (\<exists>line \<in> set (take 15 (readlines (universal_newlines (content f)))).
             \<exists>a b. line = a @ ''Licensed under the Apache License'' @ b) \<and> writable f
            \<longrightarrow> add_header p files =
                  Inr (Written, files(p \<mapsto> f\<lparr>content :=
                     concat (commented_header c) @ [LF] @
                     concat (readlines (universal_newlines (content f)))\<rparr>)))"
    unfolding e [symmetric]
    using add_header_licensed [where files = files, OF assms] add_header_written [where files = files, OF assms]
    by (simp add: concat_readlines)
  then show ?thesis using commented_header_form [of c] by blast
qed

text \<open>
  C6, amended, on \<open>licensed.go\<close>, whose first line carries the notice, and on \<open>late.rs\<close>,
  where the substring first occurs on line 16.
\<close>

theorem already_licensed_skip_witness:
  "add_header ''licensed.go'' scenario_files = Inr (AlreadyLicensed, scenario_files) \<and>
   add_header ''late.rs'' scenario_files =
     Inr (Written, scenario_files(''late.rs'' \<mapsto> text_file
            (concat (commented_header ''//'') @ [LF] @
             [LF, LF, LF, LF, LF, LF, LF, LF, LF, LF, LF, LF, LF, LF, LF] @
             ''// Licensed under the Apache License'' @ [LF])))"
proof -
  let ?go = "text_file (''// Licensed under the Apache License, Version 2.0'' @ [LF] @
                    ''package main'' @ [LF])"
  let ?rs = "text_file ([LF, LF, LF, LF, LF, LF, LF, LF, LF, LF, LF, LF, LF, LF, LF] @
                    ''// Licensed under the Apache License'' @ [LF])"
  have m1: "map_of LICENSE_MAP (path_suffix ''licensed.go'') = Some ''//''"
    by (simp add: path_suffix_def path_name_def LICENSE_MAP_def)
  have f1: "scenario_files ''licensed.go'' = Some ?go"
    by (simp add: scenario_files_def)
  have r1: "readable ?go" by (simp add: text_file_def)
  have v1: "utf8_valid (content ?go)"
    by (simp add: text_file_def utf8_valid_def utf8_step_def)
  have h1: "\<exists>line \<in> set (take 15 (readlines (universal_newlines (content ?go)))).
             \<exists>a b. line = a @ ''Licensed under the Apache License'' @ b"
    unfolding str_in_iff [symmetric] by (simp add: text_file_def)
  have a: "add_header ''licensed.go'' scenario_files = Inr (AlreadyLicensed, scenario_files)"
    using already_licensed_skip [where files = scenario_files, OF m1 f1 r1 v1, THEN conjunct1] h1
    by blast
  have m2: "map_of LICENSE_MAP (path_suffix ''late.rs'') = Some ''//''"
    by (simp add: path_suffix_def path_name_def LICENSE_MAP_def)
  have f2: "scenario_files ''late.rs'' = Some ?rs"
    by (simp add: scenario_files_def)
  have r2: "readable ?rs" by (simp add: text_file_def)
  have w2: "writable ?rs" by (simp add: text_file_def)
  have v2: "utf8_valid (content ?rs)"
    by (simp add: text_file_def utf8_valid_def utf8_step_def)
  have h2: "\<not> (\<exists>line \<in> set (take 15 (readlines (universal_newlines (content ?rs)))).
             \<exists>a b. line = a @ ''Licensed under the Apache License'' @ b)"
    unfolding str_in_iff [symmetric] by (simp add: text_file_def)
  have c2: "concat (readlines (universal_newlines (content ?rs))) = content ?rs"
    by (simp add: text_file_def)
  have b: "add_header ''late.rs'' scenario_files =
     Inr (Written, scenario_files(''late.rs'' \<mapsto> ?rs\<lparr>content :=
                     concat (commented_header ''//'') @ [LF] @
                     concat (readlines (universal_newlines (content ?rs)))\<rparr>))"
    using already_licensed_skip [where files = scenario_files, OF m2 f2 r2 v2,
        THEN conjunct2, THEN conjunct1] h2 w2
    by blast
  show ?thesis
    using a b unfolding c2 by (simp add: text_file_def)
qed

subsection \<open>C7: extension extraction\<close>

text \<open>
  C7 does not hold as stated. For a file named \<open>.py\<close> the substring from the final dot
  is \<open>.py\<close>, which the table maps to \<open>#\<close>; but \<open>Path.suffix\<close> is empty there, the lookup
  fails and the file is skipped.
\<close>

theorem extension_extraction_counterexample:
  "path_suffix ''.py'' \<noteq> spec_extension (path_name ''.py'') \<and>
   map_of LICENSE_MAP (spec_extension (path_name ''.py'')) = Some ''#'' \<and>
   map_of LICENSE_MAP (path_suffix ''.py'') = None \<and>
   add_header ''.py'' scenario_files = Inr (Unsupported, scenario_files) \<and>
   scenario_files ''.py'' = Some (text_file (''y'' @ [LF]))"
proof -
  have s: "path_suffix ''.py'' = []"
    by (simp add: path_suffix_def path_name_def)
  have e: "spec_extension (path_name ''.py'') = ''.py''"
    by (simp add: spec_extension_def path_name_def)
  have m: "map_of LICENSE_MAP (path_suffix ''.py'') = None"
    by (simp add: s LICENSE_MAP_def)
  have f: "scenario_files ''.py'' = Some (text_file (''y'' @ [LF]))"
    by (simp add: scenario_files_def)
  show ?thesis
    using add_header_unsupported [OF m, of scenario_files] m f
    by (simp add: s e LICENSE_MAP_def)
qed

text \<open>
  C7, amended. The extension looked up is \<open>Path.suffix\<close>: the substring of the final path
  component from its last dot on, unless that dot is the first or the last character of the
  component (or there is no dot), in which case the extension is empty. An empty extension is
  not in the table, so such a file is skipped. With several dots the last one counts; a file
  named \<open>.py\<close> and a file whose name ends in a dot are skipped.
\<close>

theorem extension_extraction:
  "path_suffix file_path =
     (let name = path_name file_path; e = spec_extension name
      in if e = name \<or> e = ''.'' then [] else e) \<and>
   (path_suffix file_path = [] \<longrightarrow> add_header file_path files = Inr (Unsupported, files))"
proof -
  have "map_of LICENSE_MAP [] = None" by (simp add: LICENSE_MAP_def)
  then have "path_suffix file_path = [] \<longrightarrow> add_header file_path files = Inr (Unsupported, files)"
    by (simp add: add_header_unsupported)
  then show ?thesis using path_suffix_spec [of file_path] by blast
qed

text \<open>
  C7, amended, on names with several dots, with a leading dot only, with a trailing dot, and
  with a dot in a directory name only.
\<close>

theorem extension_extraction_witness:
  "path_suffix ''src/util.test.ts'' = ''.ts'' \<and>
   path_suffix ''src/.py'' = [] \<and>
   add_header ''src/.py'' scenario_files = Inr (Unsupported, scenario_files) \<and>
   path_suffix ''src/Makefile.'' = [] \<and>
   path_suffix ''src.d/README'' = []"
proof -
  have 1: "path_suffix ''src/util.test.ts'' = ''.ts''"
    using extension_extraction [of "''src/util.test.ts''", THEN conjunct1]
    by (simp add: path_name_def spec_extension_def)
  have 2: "path_suffix ''src/.py'' = []"
    using extension_extraction [of "''src/.py''", THEN conjunct1]
    by (simp add: path_name_def spec_extension_def)
  have 3: "add_header ''src/.py'' scenario_files = Inr (Unsupported, scenario_files)"
    using extension_extraction [of "''src/.py''" scenario_files, THEN conjunct2] 2 by simp
  have 4: "path_suffix ''src/Makefile.'' = []"
    using extension_extraction [of "''src/Makefile.''", THEN conjunct1]
    by (simp add: path_name_def spec_extension_def)
  have 5: "path_suffix ''src.d/README'' = []"
    using extension_extraction [of "''src.d/README''", THEN conjunct1]
    by (simp add: path_name_def spec_extension_def)
  from 1 2 3 4 5 show ?thesis by blast
qed

subsection \<open>C8: the entry point\<close>

text \<open>
  C8. \<open>main\<close> applies \<open>add_header\<close> to the arguments after the program name, in order,
  each on the file system the previous one left. If the arguments before some argument were
  processed without failure and that argument is processed without failure too (written or
  skipped), the run goes on with the arguments after it; if \<open>add_header\<close> raises on it, the
  run ends there with status 1 and the file system as it was at that moment, whatever
  arguments follow. The status is 0 or 1, and it is not 0 exactly when \<open>add_header\<close> raised
  on some argument. On a path with a supported extension \<open>add_header\<close> raises
  \<open>FileNotFoundError\<close> when no file exists there, \<open>PermissionError\<close> when the file is
  unreadable, \<open>UnicodeDecodeError\<close> when it is readable but not valid UTF-8, and
  \<open>PermissionError\<close> again when it is readable, none of its first 15 lines contains
  "Licensed under the Apache License", and it is not writable.
\<close>

theorem entry_point_error_policy:
  "(process_files pre files = (0, files1) \<and> add_header file_path files1 = Inr (oc, files2)
      \<longrightarrow> main (prog # pre @ file_path # post) files = process_files post files2) \<and>
   (process_files pre files = (0, files1) \<and> add_header file_path files1 = Inl e
      \<longrightarrow> main (prog # pre @ file_path # post) files = (1, files1)) \<and>
   (fst (main argv files) = 0 \<or> fst (main argv files) = 1) \<and>
   (fst (main argv files) \<noteq> 0 \<longleftrightarrow>
      (\<exists>pre file_path post files1 e. drop 1 argv = pre @ file_path # post \<and>
         process_files pre files = (0, files1) \<and> add_header file_path files1 = Inl e)) \<and>
   (map_of LICENSE_MAP (path_suffix file_path) = Some c \<and> files1 file_path = None
      \<longrightarrow> add_header file_path files1 = Inl FileNotFoundError) \<and>
   (map_of LICENSE_MAP (path_suffix file_path) = Some c \<and> files1 file_path = Some f \<and>
    \<not> readable f
      \<longrightarrow> add_header file_path files1 = Inl PermissionError) \<and>
   (map_of LICENSE_MAP (path_suffix file_path) = Some c \<and> files1 file_path = Some f \<and>
    readable f \<and> \<not> utf8_valid (content f)
      \<longrightarrow> add_header file_path files1 = Inl UnicodeDecodeError) \<and>
   (map_of LICENSE_MAP (path_suffix file_path) = Some c \<and> files1 file_path = Some f \<and>
    readable f \<and> utf8_valid (content f) \<and>
    \<not> (\<exists>line \<in> set (take 15 (readlines (universal_newlines (content f)))).
          \<exists>a b. line = a @ ''Licensed under the Apache License'' @ b) \<and>
    \<not> writable f
      \<longrightarrow> add_header file_path files1 = Inl PermissionError)"
proof (intro conjI impI)
  assume "process_files pre files = (0, files1) \<and> add_header file_path files1 = Inr (oc, files2)"
  then show "main (prog # pre @ file_path # post) files = process_files post files2"
    by (simp add: main_def process_files_append)
next
  assume "process_files pre files = (0, files1) \<and> add_header file_path files1 = Inl e"
  then show "main (prog # pre @ file_path # post) files = (1, files1)"
    by (simp add: main_def process_files_append)
next
  show "fst (main argv files) = 0 \<or> fst (main argv files) = 1"
    unfolding main_def by (rule process_files_status)
next
  show "fst (main argv files) \<noteq> 0 \<longleftrightarrow>
      (\<exists>pre file_path post files1 e. drop 1 argv = pre @ file_path # post \<and>
         process_files pre files = (0, files1) \<and> add_header file_path files1 = Inl e)"
    unfolding main_def by (rule process_files_failure)
next
  assume "map_of LICENSE_MAP (path_suffix file_path) = Some c \<and> files1 file_path = None"
  then show "add_header file_path files1 = Inl FileNotFoundError"
    using add_header_absent [where files = files1] by blast
next
  assume "map_of LICENSE_MAP (path_suffix file_path) = Some c \<and> files1 file_path = Some f \<and>
    \<not> readable f"
  then show "add_header file_path files1 = Inl PermissionError"
    using add_header_unreadable [where files = files1] by blast
next
  assume "map_of LICENSE_MAP (path_suffix file_path) = Some c \<and> files1 file_path = Some f \<and>
    readable f \<and> \<not> utf8_valid (content f)"
  then show "add_header file_path files1 = Inl UnicodeDecodeError"
    using add_header_undecodable [where files = files1] by blast
next
  assume a: "map_of LICENSE_MAP (path_suffix file_path) = Some c \<and> files1 file_path = Some f \<and>
    readable f \<and> utf8_valid (content f) \<and>
    \<not> (\<exists>line \<in> set (take 15 (readlines (universal_newlines (content f)))).
          \<exists>a b. line = a @ ''Licensed under the Apache License'' @ b) \<and>
    \<not> writable f"
  then have "\<not> list_ex (str_in license_marker)
                (take 15 (readlines (universal_newlines (content f))))"
    unfolding marker_in_first_lines by blast
  then show "add_header file_path files1 = Inl PermissionError"
    using a add_header_unwritable [where files = files1 and p = file_path and f = f and c = c]
    by blast
qed

text \<open>
  C8 on three runs: \<open>notes.txt\<close> is skipped and \<open>hello.py\<close> gets its header in the
  first two; the first run then fails on \<open>missing.go\<close> and never reaches \<open>empty.sh\<close>. The
  third run fails on \<open>readonly.py\<close>, which can be read but not written, and never reaches
  \<open>hello.py\<close>.
\<close>

theorem entry_point_error_policy_witness:
  "main [''add_license_header.py'', ''notes.txt'', ''hello.py'', ''missing.go'', ''empty.sh''] scenario_files =
     (1, scenario_files(''hello.py'' \<mapsto>
            text_file (concat (commented_header ''#'') @ [LF] @ ''import os'' @ [LF]))) \<and>
   main [''add_license_header.py'', ''notes.txt'', ''hello.py''] scenario_files =
     (0, scenario_files(''hello.py'' \<mapsto>
            text_file (concat (commented_header ''#'') @ [LF] @ ''import os'' @ [LF]))) \<and>
   add_header ''missing.go'' (scenario_files(''hello.py'' \<mapsto>
            text_file (concat (commented_header ''#'') @ [LF] @ ''import os'' @ [LF]))) =
     Inl FileNotFoundError \<and>
   add_header ''readonly.py'' scenario_files = Inl PermissionError \<and>
   main [''add_license_header.py'', ''readonly.py'', ''hello.py''] scenario_files =
     (1, scenario_files)"
proof -
  let ?files1 = "scenario_files(''hello.py'' \<mapsto>
            text_file (concat (commented_header ''#'') @ [LF] @ ''import os'' @ [LF]))"
  have u: "add_header ''notes.txt'' scenario_files = Inr (Unsupported, scenario_files)"
    by (rule add_header_unsupported) (simp add: path_suffix_def path_name_def LICENSE_MAP_def)
  have pre: "process_files [''notes.txt'', ''hello.py''] scenario_files = (0, ?files1)"
    by (simp add: u hello_py_written)
  have m: "map_of LICENSE_MAP (path_suffix ''missing.go'') = Some ''//''"
    by (simp add: path_suffix_def path_name_def LICENSE_MAP_def)
  have none: "?files1 ''missing.go'' = None"
    by (simp add: scenario_files_def)
  have e: "add_header ''missing.go'' ?files1 = Inl FileNotFoundError"
    using entry_point_error_policy [where file_path = "''missing.go''" and ?files1.0 = ?files1
        and c = "''//''", THEN conjunct2, THEN conjunct2, THEN conjunct2, THEN conjunct2,
        THEN conjunct1] m none
    by blast
  have a: "main [''add_license_header.py'', ''notes.txt'', ''hello.py'', ''missing.go'', ''empty.sh'']
             scenario_files = (1, ?files1)"
    using entry_point_error_policy [where pre = "[''notes.txt'', ''hello.py'']" and files = scenario_files
        and ?files1.0 = ?files1 and file_path = "''missing.go''" and e = FileNotFoundError
        and prog = "''add_license_header.py''" and post = "[''empty.sh'']",
        THEN conjunct2, THEN conjunct1] pre e
    by simp
  have b: "main [''add_license_header.py'', ''notes.txt'', ''hello.py''] scenario_files = (0, ?files1)"
    using entry_point_error_policy [where pre = "[''notes.txt'']" and files = scenario_files
        and ?files1.0 = scenario_files and file_path = "''hello.py''" and oc = Written
        and ?files2.0 = ?files1
        and prog = "''add_license_header.py''" and post = "[]", THEN conjunct1] u hello_py_written
    by simp
  let ?ro = "(text_file (''import sys'' @ [LF]))\<lparr>writable := False\<rparr>"
  have m3: "map_of LICENSE_MAP (path_suffix ''readonly.py'') = Some ''#''"
    by (simp add: path_suffix_def path_name_def LICENSE_MAP_def)
  have f3: "scenario_files ''readonly.py'' = Some ?ro"
    by (simp add: scenario_files_def)
  have r3: "readable ?ro" by (simp add: text_file_def)
  have w3: "\<not> writable ?ro" by simp
  have v3: "utf8_valid (content ?ro)"
    by (simp add: text_file_def utf8_valid_def utf8_step_def)
  have n3: "\<not> (\<exists>line \<in> set (take 15 (readlines (universal_newlines (content ?ro)))).
          \<exists>a b. line = a @ ''Licensed under the Apache License'' @ b)"
    unfolding str_in_iff [symmetric] by (simp add: text_file_def)
  have e3: "add_header ''readonly.py'' scenario_files = Inl PermissionError"
    using entry_point_error_policy [where file_path = "''readonly.py''"
        and ?files1.0 = scenario_files and c = "''#''" and f = ?ro,
        THEN conjunct2, THEN conjunct2, THEN conjunct2, THEN conjunct2,
        THEN conjunct2, THEN conjunct2, THEN conjunct2] m3 f3 r3 w3 v3 n3
    by blast
  have p0: "process_files [] scenario_files = (0, scenario_files)" by simp
  have c3: "main [''add_license_header.py'', ''readonly.py'', ''hello.py''] scenario_files =
     (1, scenario_files)"
    using entry_point_error_policy [where pre = "[]" and files = scenario_files
        and ?files1.0 = scenario_files and file_path = "''readonly.py''" and e = PermissionError
        and prog = "''add_license_header.py''" and post = "[''hello.py'']",
        THEN conjunct2, THEN conjunct1] p0 e3
    by simp
  from a b e e3 c3 show ?thesis by blast
qed

subsection \<open>C9: empty files\<close>

text \<open>
  C9. For a readable, writable, empty file with a supported extension, \<open>add_header\<close>
  writes the rendered header lines followed by one line feed and nothing else. The rendered
  header lines are, one for each of the 13 notice lines in order, the table's marker and a
  line feed for an empty notice line, and the marker, one space, the notice line and a line
  feed otherwise; the new file reads as these 13 lines and one blank line.
\<close>

theorem empty_file_injection:
  assumes "map_of LICENSE_MAP (path_suffix p) = Some c"
    and "files p = Some f" "content f = []" "readable f" "writable f"
  shows "add_header p files =
           Inr (Written, files(p \<mapsto> f\<lparr>content := concat (commented_header c) @ [LF]\<rparr>)) \<and>
         commented_header c =
           map (\<lambda>line. if line = [] then c @ [LF] else c @ '' '' @ line @ [LF]) LICENSE_LINES \<and>
         length LICENSE_LINES = 13 \<and>
         length (commented_header c) = 13 \<and>
         readlines (universal_newlines (concat (commented_header c) @ [LF])) =
           commented_header c @ [[LF]]"
proof -
  have v: "utf8_valid (content f)" using assms(3) by (simp add: utf8_valid_def)
  have n: "\<not> list_ex (str_in license_marker)
              (take 15 (readlines (universal_newlines (content f))))"
    using assms(3) by simp
  have a: "add_header p files =
           Inr (Written, files(p \<mapsto> f\<lparr>content := concat (commented_header c) @ [LF]\<rparr>))"
    using add_header_written [where files = files, OF assms(1,2,4) v assms(5) n] assms(3) by simp
  have "readlines (universal_newlines (concat (commented_header c) @ [LF] @ universal_newlines [])) =
           commented_header c @ [[LF]] @ readlines (universal_newlines [])"
    using LICENSE_MAP_range [OF assms(1)] by (rule readlines_after_header)
  then have b: "readlines (universal_newlines (concat (commented_header c) @ [LF])) =
           commented_header c @ [[LF]]"
    by simp
  have n13: "length LICENSE_LINES = 13" by (simp add: LICENSE_LINES_def)
  from a b n13 length_commented_header commented_header_form [of c] show ?thesis by blast
qed

text \<open>
  C9 on \<open>empty.sh\<close>, with the bytes written spelled out.
\<close>

theorem empty_file_injection_witness:
  \<open>add_header ''empty.sh'' scenario_files =
     Inr (Written, scenario_files(''empty.sh'' \<mapsto> text_file
       (''# Copyright 2025 chenjjiaa'' @ [LF] @
        ''#'' @ [LF] @
        ''# Licensed under the Apache License, Version 2.0 (the "License");'' @ [LF] @
        ''# you may not use this file except in compliance with the License.'' @ [LF] @
        ''# You may obtain a copy of the License at'' @ [LF] @
        ''#'' @ [LF] @
        ''#     http://www.apache.org/licenses/LICENSE-2.0'' @ [LF] @
        ''#'' @ [LF] @
        ''# Unless required by applicable law or agreed to in writing, software'' @ [LF] @
        ''# distributed under the License is distributed on an "AS IS" BASIS,'' @ [LF] @
        ''# WITHOUT WARRANTIES OR CONDITIONS OF ANY KIND, either express or implied.'' @ [LF] @
        ''# See the License for the specific language governing permissions and'' @ [LF] @
        ''# limitations under the License.'' @ [LF] @
        [LF])))\<close>
proof -
  have m: "map_of LICENSE_MAP (path_suffix ''empty.sh'') = Some ''#''"
    by (simp add: path_suffix_def path_name_def LICENSE_MAP_def)
  have f: "scenario_files ''empty.sh'' = Some (text_file [])"
    by (simp add: scenario_files_def)
  have c: "content (text_file []) = []" by (simp add: text_file_def)
  have r: "readable (text_file [])" by (simp add: text_file_def)
  have w: "writable (text_file [])" by (simp add: text_file_def)
  note t = empty_file_injection [where files = scenario_files, OF m f c r w]
  have h: "commented_header ''#'' =
      map (\<lambda>line. if line = [] then ''#'' @ [LF] else ''#'' @ '' '' @ line @ [LF]) LICENSE_LINES"
    using t by blast
  have a: "add_header ''empty.sh'' scenario_files =
      Inr (Written, scenario_files(''empty.sh'' \<mapsto>
         (text_file [])\<lparr>content := concat (commented_header ''#'') @ [LF]\<rparr>))"
    using t by blast
  show ?thesis
    unfolding a h by (simp add: text_file_def LICENSE_LINES_def)
qed

subsection \<open>C10: unsupported extensions never touch the file\<close>

text \<open>
  C10. When the extension of a path is not in the table, \<open>add_header\<close> returns normally
  with the file system unchanged, whatever the file system holds at that path, also nothing at
  all; a run on that path alone exits with status 0. When the extension is in the table and
  no file exists at the path, \<open>add_header\<close> raises \<open>FileNotFoundError\<close> and the run ends
  with status 1.
\<close>

theorem unsupported_before_file_access:
  "(map_of LICENSE_MAP (path_suffix p) = None
      \<longrightarrow> add_header p files = Inr (Unsupported, files) \<and> main [prog, p] files = (0, files)) \<and>
   (map_of LICENSE_MAP (path_suffix p) = Some c \<and> files p = None
      \<longrightarrow> add_header p files = Inl FileNotFoundError \<and> main (prog # p # rest) files = (1, files))"
proof (intro conjI impI)
  assume n: "map_of LICENSE_MAP (path_suffix p) = None"
  then show "add_header p files = Inr (Unsupported, files)"
    by (rule add_header_unsupported)
  then show "main [prog, p] files = (0, files)"
    by (simp add: main_def)
next
  assume s: "map_of LICENSE_MAP (path_suffix p) = Some c \<and> files p = None"
  then show a: "add_header p files = Inl FileNotFoundError"
    by (simp add: add_header_supported open_readlines_def)
  then show "main (prog # p # rest) files = (1, files)"
    by (simp add: main_def)
qed

text \<open>
  C10 on \<open>missing.txt\<close> and \<open>missing.py\<close>, neither of which exists.
\<close>

theorem unsupported_before_file_access_witness:
  "scenario_files ''missing.txt'' = None \<and>
   add_header ''missing.txt'' scenario_files = Inr (Unsupported, scenario_files) \<and>
   main [''add_license_header.py'', ''missing.txt''] scenario_files = (0, scenario_files) \<and>
   scenario_files ''missing.py'' = None \<and>
   add_header ''missing.py'' scenario_files = Inl FileNotFoundError \<and>
   main [''add_license_header.py'', ''missing.py'', ''hello.py''] scenario_files = (1, scenario_files)"
proof -
  have m1: "map_of LICENSE_MAP (path_suffix ''missing.txt'') = None"
    by (simp add: path_suffix_def path_name_def LICENSE_MAP_def)
  have m2: "map_of LICENSE_MAP (path_suffix ''missing.py'') = Some ''#''"
    by (simp add: path_suffix_def path_name_def LICENSE_MAP_def)
  have n1: "scenario_files ''missing.txt'' = None"
    by (simp add: scenario_files_def)
  have n2: "scenario_files ''missing.py'' = None"
    by (simp add: scenario_files_def)
  show ?thesis
    using unsupported_before_file_access [of "''missing.txt''" scenario_files "''add_license_header.py''"
            "''#''" "[]", THEN conjunct1]
          unsupported_before_file_access [of "''missing.py''" scenario_files "''add_license_header.py''"
            "''#''" "[''hello.py'']", THEN conjunct2]
          m1 m2 n1 n2
    by simp
qed

end
